theory Spec2Isabelle
  imports Main
begin

section \<open>The line reader on standard input (MICmnStreamStdinLinux.cpp)\<close>

text \<open>
  A shallow embedding of \<^verbatim>\<open>CMICmnStreamStdinLinux\<close>: its fields as a record, each
  method as a function that takes the instance (and the part of the process it touches)
  and returns it updated. \<^verbatim>\<open>MIstatus::success\<close> and \<^verbatim>\<open>MIstatus::failure\<close> are the
  booleans \<open>True\<close> and \<open>False\<close>.
\<close>

abbreviation (input) success :: bool where "success \<equiv> True"
abbreviation (input) failure :: bool where "failure \<equiv> False"

abbreviation (input) NUL :: char where "NUL \<equiv> CHR 0x00"
abbreviation (input) LF :: char where "LF \<equiv> CHR 0x0A"
abbreviation (input) CR :: char where "CR \<equiv> CHR 0x0D"

subsection \<open>The instance\<close>

datatype file_handle = stdin_handle

text \<open>
  A pointer field is \<open>None\<close> when it is \<^verbatim>\<open>nullptr\<close>. The command buffer, when
  allocated, is the list of its bytes. \<open>m_bInitialized\<close> and
  \<open>m_strMILastErrorDescription\<close> are inherited from the base class.
\<close>

record reader =
  m_constBufferSize :: nat
  m_pStdin :: "file_handle option"
  m_pCmdBuffer :: "char list option"
  m_waitForInput :: bool
  m_bInitialized :: bool
  m_strMILastErrorDescription :: string

subsection \<open>The standard input stream\<close>

text \<open>
  The C stream \<^verbatim>\<open>stdin\<close>: the bytes that are still to be read, what the read after
  the last of them reports, and the two indicators of the stream.
\<close>

datatype stream_end = EndOfFile | ReadError

record stdin_stream =
  pending :: "char list"
  at_end :: stream_end
  err_ind :: bool
  eof_ind :: bool

definition clearerr :: "stdin_stream \<Rightarrow> stdin_stream" where
  "clearerr cin = cin\<lparr>err_ind := False, eof_ind := False\<rparr>"

definition ferror :: "stdin_stream \<Rightarrow> bool" where
  "ferror cin = err_ind cin"

subsection \<open>What the instance is given by the rest of the program\<close>

datatype module_kind = CMICmnLog | CMICmnResources

datatype resource_id =
    IDS_MI_INIT_ERR_LOG
  | IDS_MI_INIT_ERR_RESOURCES
  | IDS_MI_INIT_ERR_OS_STDIN_HANDLER
  | IDS_MI_SHTDWN_ERR_OS_STDIN_HANDLER

text \<open>
  The helpers \<^verbatim>\<open>MI::ModuleInit\<close> and \<^verbatim>\<open>MI::ModuleShutdown\<close>, the resource
  strings and their formatting are declared in headers outside the sources at hand. The
  helpers receive \<^verbatim>\<open>bOk\<close> and \<^verbatim>\<open>errMsg\<close> by reference, so each is taken as a
  parameter: any function on that pair. A fresh array of \<^verbatim>\<open>MIchar\<close> holds whatever
  the allocator left there (\<open>new_MIchar\<close>), and \<open>strerror_errno\<close> is the text of
  \<^verbatim>\<open>::strerror(errno)\<close>.
\<close>

record environment =
  ModuleInit :: "module_kind \<Rightarrow> resource_id \<Rightarrow> bool \<times> string \<Rightarrow> bool \<times> string"
  ModuleShutdown :: "module_kind \<Rightarrow> resource_id \<Rightarrow> bool \<times> string \<Rightarrow> bool \<times> string"
  Format_MIRSRC :: "resource_id \<Rightarrow> string \<Rightarrow> string"
  new_MIchar :: "nat \<Rightarrow> char"
  strerror_errno :: string

text \<open>
  Modelled from the spec: the Error-Description Sink of the base class, ``a
  settable/clearable last-error string associated with the instance''.
\<close>

definition SetErrorDescription :: "string \<Rightarrow> reader \<Rightarrow> reader" where
  "SetErrorDescription txt s = s\<lparr>m_strMILastErrorDescription := txt\<rparr>"

definition ClrErrorDescription :: "reader \<Rightarrow> reader" where
  "ClrErrorDescription s = s\<lparr>m_strMILastErrorDescription := []\<rparr>"

subsection \<open>Constructor\<close>

text \<open>
  Modelled from the spec: the two fields of the base class, whose constructor is outside
  the sources at hand; the instance starts un-initialized and without an error
  description. The other four fields are set as the constructor of the class sets them.
\<close>

definition constructor :: reader where
  "constructor =
     \<lparr> m_constBufferSize = 1024,
       m_pStdin = None,
       m_pCmdBuffer = None,
       m_waitForInput = True,
       m_bInitialized = False,
       m_strMILastErrorDescription = [] \<rparr>"

subsection \<open>Initialize and Shutdown\<close>

definition Initialize ::
  "environment \<Rightarrow> reader \<Rightarrow> stdin_stream \<Rightarrow> bool \<times> reader \<times> stdin_stream" where
  "Initialize env s cin =
     (if m_bInitialized s then (success, s, cin)
      else
        let r0 = (success, []);
            r1 = ModuleInit env CMICmnLog IDS_MI_INIT_ERR_LOG r0;
            r2 = ModuleInit env CMICmnResources IDS_MI_INIT_ERR_RESOURCES r1;
            bOk = fst r2;
            errMsg = snd r2;
            s1 = (if bOk
                  then s\<lparr>m_pCmdBuffer := Some (map (new_MIchar env) [0..<m_constBufferSize s]),
                         m_pStdin := Some stdin_handle\<rparr>
                  else s);
            cin1 = clearerr cin;
            s2 = s1\<lparr>m_bInitialized := bOk\<rparr>
        in if \<not> bOk
           then (failure,
                 SetErrorDescription (Format_MIRSRC env IDS_MI_INIT_ERR_OS_STDIN_HANDLER errMsg) s2,
                 cin1)
           else (success, s2, cin1))"

definition Shutdown :: "environment \<Rightarrow> reader \<Rightarrow> bool \<times> reader" where
  "Shutdown env s =
     (if \<not> m_bInitialized s then (success, s)
      else
        let s1 = s\<lparr>m_bInitialized := False\<rparr>;
            s2 = ClrErrorDescription s1;
            r0 = (success, []);
            s3 = (if m_pCmdBuffer s2 \<noteq> None then s2\<lparr>m_pCmdBuffer := None\<rparr> else s2);
            s4 = s3\<lparr>m_pStdin := None\<rparr>;
            r1 = ModuleShutdown env CMICmnResources IDS_MI_INIT_ERR_RESOURCES r0;
            r2 = ModuleShutdown env CMICmnLog IDS_MI_INIT_ERR_LOG r1;
            bOk = fst r2;
            errMsg = snd r2;
            s5 = (if \<not> bOk
                  then SetErrorDescription
                         (Format_MIRSRC env IDS_MI_SHTDWN_ERR_OS_STDIN_HANDLER errMsg) s4
                  else s4)
        in (success, s5))"

subsection \<open>InterruptReadLine and InputAvailable\<close>

definition InterruptReadLine :: "reader \<Rightarrow> reader" where
  "InterruptReadLine s = s\<lparr>m_waitForInput := False\<rparr>"

text \<open>
  One turn of the wait loop is one call of \<^verbatim>\<open>::select\<close> with its timeout of one
  second. What the call returns, and whether the other thread calls
  \<^verbatim>\<open>InterruptReadLine\<close> while it is pending, is not decided by this class: a poll
  is given by these two facts, and a call of \<^verbatim>\<open>InputAvailable\<close> by the list of the
  polls it may make.
\<close>

record poll =
  select_ret :: int
  interrupt_arrives :: bool

text \<open>
  The loop, by recursion on the polls that remain. The result is the status, the
  out-parameter \<^verbatim>\<open>vwbAvail\<close> and the instance; \<open>None\<close> says that the loop is still
  waiting after the last of the polls.
\<close>

fun wait_loop :: "reader \<Rightarrow> bool \<Rightarrow> poll list \<Rightarrow> (bool \<times> bool \<times> reader) option" where
  "wait_loop s vwbAvail [] =
     (if m_waitForInput s then None else Some (failure, vwbAvail, s))"
| "wait_loop s vwbAvail (p # ps) =
     (if m_waitForInput s then
        (let ret = select_ret p;
             s1 = (if interrupt_arrives p then InterruptReadLine s else s)
         in if ret = 0 then wait_loop s1 vwbAvail ps
            else if ret = - 1 then Some (failure, False, s1)
            else Some (success, True, s1))
      else Some (failure, vwbAvail, s))"

text \<open>With \<^verbatim>\<open>_WIN32\<close> defined the body is the final \<^verbatim>\<open>return\<close> alone.\<close>

definition InputAvailable ::
  "bool \<Rightarrow> reader \<Rightarrow> bool \<Rightarrow> poll list \<Rightarrow> (bool \<times> bool \<times> reader) option" where
  "InputAvailable WIN32 s vwbAvail ps =
     (if WIN32 then Some (failure, vwbAvail, s) else wait_loop s vwbAvail ps)"

subsection \<open>ReadLine\<close>

text \<open>
  \<^verbatim>\<open>::fgets\<close> as the C standard has it: at most \<open>n - 1\<close> bytes are read, none after
  a new-line, which is kept. \<open>fgets_chars\<close> gives the bytes read, the bytes left and
  whether the bytes ran out before the count or a new-line ended the read.
\<close>

fun fgets_chars :: "nat \<Rightarrow> char list \<Rightarrow> char list \<times> char list \<times> bool" where
  "fgets_chars 0 cs = ([], cs, False)"
| "fgets_chars (Suc k) [] = ([], [], True)"
| "fgets_chars (Suc k) (c # cs) =
     (if c = LF then ([c], cs, False)
      else (case fgets_chars k cs of (r, rest, e) \<Rightarrow> (c # r, rest, e)))"

text \<open>
  What a program may not do is a value of the model: a null pointer handed to the
  library, and a read or write outside the buffer.
\<close>

datatype fault = NullPointer | OutOfBounds

definition store_bytes :: "char list \<Rightarrow> char list \<Rightarrow> fault + char list" where
  "store_bytes bytes buf =
     (if length bytes \<le> length buf then Inr (bytes @ drop (length bytes) buf)
      else Inl OutOfBounds)"

text \<open>
  The result of \<open>fgets\<close>: whether the pointer returned is the buffer (\<open>True\<close>) or
  null, the buffer and the stream. With \<open>n = 1\<close> no byte is asked for. Otherwise a
  stream whose end-of-file indicator is set gives no byte, whatever it still holds, and
  the pointer returned is null. When the bytes run out, the stream reports its end
  or a read error; with a read error the pointer returned is null and the content of
  the buffer is not determined by the standard: the model keeps the bytes stored until
  then.
\<close>

definition fgets ::
  "char list \<Rightarrow> nat \<Rightarrow> stdin_stream \<Rightarrow> fault + (bool \<times> char list \<times> stdin_stream)" where
  "fgets buf n cin =
     (if n = 0 then Inr (False, buf, cin)
      else if 1 < n \<and> eof_ind cin then Inr (False, buf, cin)
      else
        (case fgets_chars (n - 1) (pending cin) of
           (r, rest, ran_out) \<Rightarrow>
             if \<not> ran_out then
               (case store_bytes (r @ [NUL]) buf of
                  Inl f \<Rightarrow> Inl f
                | Inr buf1 \<Rightarrow> Inr (True, buf1, cin\<lparr>pending := rest\<rparr>))
             else if at_end cin = ReadError then
               (case store_bytes r buf of
                  Inl f \<Rightarrow> Inl f
                | Inr buf1 \<Rightarrow> Inr (False, buf1, cin\<lparr>pending := rest, err_ind := True\<rparr>))
             else if r = [] then Inr (False, buf, cin\<lparr>pending := rest, eof_ind := True\<rparr>)
             else
               (case store_bytes (r @ [NUL]) buf of
                  Inl f \<Rightarrow> Inl f
                | Inr buf1 \<Rightarrow> Inr (True, buf1, cin\<lparr>pending := rest, eof_ind := True\<rparr>))))"

text \<open>
  The loop that strips the new line, from \<^verbatim>\<open>pI = m_pCmdBuffer\<close>: it stops at the
  first \<open>NUL\<close>, or overwrites the first \<open>LF\<close> or \<open>CR\<close> and stops. Leaving the
  buffer without having met any of them is a fault.
\<close>

fun strip_new_line :: "char list \<Rightarrow> fault + char list" where
  "strip_new_line [] = Inl OutOfBounds"
| "strip_new_line (c # cs) =
     (if c = NUL then Inr (c # cs)
      else if c = LF \<or> c = CR then Inr (NUL # cs)
      else (case strip_new_line cs of Inl f \<Rightarrow> Inl f | Inr cs1 \<Rightarrow> Inr (c # cs1)))"

text \<open>The text a \<^verbatim>\<open>const MIchar *\<close> to the start of the buffer denotes.\<close>

definition c_str :: "char list \<Rightarrow> string" where
  "c_str buf = takeWhile (\<lambda>c. c \<noteq> NUL) buf"

text \<open>
  The result of \<open>ReadLine\<close>: the text returned (\<open>None\<close> for a null pointer), the
  out-parameter \<^verbatim>\<open>vwErrMsg\<close>, the instance and the stream.
\<close>

definition ReadLine ::
  "environment \<Rightarrow> reader \<Rightarrow> stdin_stream
     \<Rightarrow> fault + (string option \<times> string \<times> reader \<times> stdin_stream)" where
  "ReadLine env s cin =
     (let vwErrMsg = [] in
      case m_pCmdBuffer s of
        None \<Rightarrow> Inl NullPointer
      | Some buf \<Rightarrow>
          (case fgets buf (m_constBufferSize s) cin of
             Inl f \<Rightarrow> Inl f
           | Inr (pText, buf1, cin1) \<Rightarrow>
               if \<not> pText then
                 (case m_pStdin s of
                    None \<Rightarrow> Inl NullPointer
                  | Some h \<Rightarrow>
                      Inr (None,
                           if ferror cin1 then strerror_errno env else vwErrMsg,
                           s\<lparr>m_pCmdBuffer := Some buf1\<rparr>, cin1))
               else
                 (case strip_new_line buf1 of
                    Inl f \<Rightarrow> Inl f
                  | Inr buf2 \<Rightarrow>
                      Inr (Some (c_str buf2), vwErrMsg, s\<lparr>m_pCmdBuffer := Some buf2\<rparr>, cin1))))"

subsection \<open>Sequences of calls\<close>

text \<open>
  The calls a program can make on the instance. \<open>step\<close> gives the instance and the
  stream after a call that returns; it is \<open>None\<close> when the call does not return
  within its polls or ends in a fault.
\<close>

datatype operation =
    Op_Initialize environment
  | Op_Shutdown environment
  | Op_InputAvailable bool "poll list"
  | Op_ReadLine environment
  | Op_InterruptReadLine

fun step ::
  "bool \<Rightarrow> operation \<Rightarrow> reader \<times> stdin_stream \<Rightarrow> (reader \<times> stdin_stream) option" where
  "step WIN32 (Op_Initialize env) (s, cin) = Some (snd (Initialize env s cin))"
| "step WIN32 (Op_Shutdown env) (s, cin) = Some (snd (Shutdown env s), cin)"
| "step WIN32 (Op_InputAvailable vwbAvail ps) (s, cin) =
     (case InputAvailable WIN32 s vwbAvail ps of
        None \<Rightarrow> None
      | Some r \<Rightarrow> Some (snd (snd r), cin))"
| "step WIN32 (Op_ReadLine env) (s, cin) =
     (case ReadLine env s cin of
        Inl f \<Rightarrow> None
      | Inr r \<Rightarrow> Some (snd (snd r)))"
| "step WIN32 Op_InterruptReadLine (s, cin) = Some (InterruptReadLine s, cin)"

fun run ::
  "bool \<Rightarrow> operation list \<Rightarrow> reader \<times> stdin_stream \<Rightarrow> (reader \<times> stdin_stream) option" where
  "run WIN32 [] w = Some w"
| "run WIN32 (op # ops) w =
     (case step WIN32 op w of None \<Rightarrow> None | Some w1 \<Rightarrow> run WIN32 ops w1)"

subsection \<open>Outcome of the dependent modules\<close>

text \<open>
  The values of \<^verbatim>\<open>bOk\<close> and \<^verbatim>\<open>errMsg\<close> after the two calls of
  \<^verbatim>\<open>MI::ModuleInit\<close> in \<open>Initialize\<close>, and after the two calls of
  \<^verbatim>\<open>MI::ModuleShutdown\<close> in \<open>Shutdown\<close>.
\<close>

definition bring_up :: "environment \<Rightarrow> bool \<times> string" where
  "bring_up env =
     ModuleInit env CMICmnResources IDS_MI_INIT_ERR_RESOURCES
       (ModuleInit env CMICmnLog IDS_MI_INIT_ERR_LOG (success, []))"

definition teardown :: "environment \<Rightarrow> bool \<times> string" where
  "teardown env =
     ModuleShutdown env CMICmnLog IDS_MI_INIT_ERR_LOG
       (ModuleShutdown env CMICmnResources IDS_MI_INIT_ERR_RESOURCES (success, []))"

subsection \<open>Example surroundings\<close>

text \<open>
  \<open>env_ok\<close>: every module starts and stops. \<open>env_bad\<close>: the resources module does
  not start, and the log module reports an error when it stops.
\<close>

definition env_ok :: environment where
  "env_ok =
     \<lparr> ModuleInit = (\<lambda>m i r. r),
       ModuleShutdown = (\<lambda>m i r. r),
       Format_MIRSRC = (\<lambda>i msg. ''Stdin handler: '' @ msg),
       new_MIchar = (\<lambda>i. CHR ''?''),
       strerror_errno = ''Input/output error'' \<rparr>"

definition env_bad :: environment where
  "env_bad =
     \<lparr> ModuleInit =
         (\<lambda>m i r. if fst r \<and> m = CMICmnResources then (failure, ''resources'') else r),
       ModuleShutdown = (\<lambda>m i r. if m = CMICmnLog then (failure, snd r @ ''log'') else r),
       Format_MIRSRC = (\<lambda>i msg. ''Stdin handler: '' @ msg),
       new_MIchar = (\<lambda>i. CHR ''?''),
       strerror_errno = ''Input/output error'' \<rparr>"

definition cin_of :: "char list \<Rightarrow> stream_end \<Rightarrow> stdin_stream" where
  "cin_of bytes e = \<lparr> pending = bytes, at_end = e, err_ind = False, eof_ind = False \<rparr>"

text \<open>The instance after a first successful \<open>Initialize\<close>.\<close>

definition ready :: reader where
  "ready = fst (snd (Initialize env_ok constructor (cin_of [] EndOfFile)))"

definition timeout_poll :: poll where
  "timeout_poll = \<lparr> select_ret = 0, interrupt_arrives = False \<rparr>"

definition data_poll :: poll where
  "data_poll = \<lparr> select_ret = 1, interrupt_arrives = False \<rparr>"

definition interrupted_poll :: poll where
  "interrupted_poll = \<lparr> select_ret = 0, interrupt_arrives = True \<rparr>"

subsection \<open>Notions used by the statements\<close>


text \<open>
  The two pointers are set exactly while the instance is initialized, and the buffer
  has the size the constructor fixed.
\<close>

definition consistent :: "reader \<Rightarrow> bool" where
  "consistent s =
     ((m_pCmdBuffer s \<noteq> None) = m_bInitialized s \<and>
      (m_pStdin s \<noteq> None) = m_bInitialized s \<and>
      (case m_pCmdBuffer s of None \<Rightarrow> True | Some buf \<Rightarrow> length buf = m_constBufferSize s) \<and>
      m_constBufferSize s = 1024)"

text \<open>
  The words of the specification for the stripping: the first \<open>LF\<close> or \<open>CR\<close> of
  the bytes is overwritten by a terminator.
\<close>

fun overwrite_first_terminator :: "char list \<Rightarrow> char list" where
  "overwrite_first_terminator [] = []"
| "overwrite_first_terminator (c # cs) =
     (if c = LF \<or> c = CR then NUL # cs else c # overwrite_first_terminator cs)"

section \<open>Shutdown\<close>

lemma Shutdown_status: "fst (Shutdown env s) = success"
  by (simp add: Shutdown_def Let_def)

lemma Shutdown_uninit: "\<not> m_bInitialized (snd (Shutdown env s))"
  by (simp add: Shutdown_def Let_def SetErrorDescription_def ClrErrorDescription_def)

lemma Shutdown_records:
  "m_bInitialized s \<Longrightarrow> \<not> fst (teardown env) \<Longrightarrow>
   m_strMILastErrorDescription (snd (Shutdown env s)) =
     Format_MIRSRC env IDS_MI_SHTDWN_ERR_OS_STDIN_HANDLER (snd (teardown env))"
  by (simp add: Shutdown_def Let_def SetErrorDescription_def ClrErrorDescription_def
      teardown_def)

lemma ready_initialized: "m_bInitialized ready"
  by (simp add: ready_def Initialize_def env_ok_def constructor_def Let_def)

lemma teardown_env_bad: "teardown env_bad = (failure, ''log'')"
  by (simp add: teardown_def env_bad_def)

text \<open>
  C4. Whatever the instance and whatever the two module shutdowns report, \<open>Shutdown\<close>
  returns success and leaves the instance un-initialized; when the instance was
  initialized and the module shutdowns reported an error, the error description of the
  instance is the formatted message, and the status is success all the same.
\<close>

theorem C4_Shutdown_never_fails:
  "fst (Shutdown env s) = success \<and>
   \<not> m_bInitialized (snd (Shutdown env s)) \<and>
   (m_bInitialized s \<and> \<not> fst (teardown env) \<longrightarrow>
      m_strMILastErrorDescription (snd (Shutdown env s)) =
        Format_MIRSRC env IDS_MI_SHTDWN_ERR_OS_STDIN_HANDLER (snd (teardown env)))"
  using Shutdown_status Shutdown_uninit Shutdown_records by blast

theorem C4_Shutdown_never_fails_witness:
  "m_bInitialized ready \<and> \<not> fst (teardown env_bad) \<and>
   fst (Shutdown env_bad ready) = success \<and>
   \<not> m_bInitialized (snd (Shutdown env_bad ready)) \<and>
   m_strMILastErrorDescription (snd (Shutdown env_bad ready)) = ''Stdin handler: log''"
  using C4_Shutdown_never_fails [of env_bad ready] ready_initialized
  by (simp add: teardown_env_bad) (simp add: env_bad_def)

section \<open>Initialize and Shutdown, together\<close>

lemma Initialize_again: "m_bInitialized s \<Longrightarrow> Initialize env s cin = (success, s, cin)"
  by (simp add: Initialize_def)

lemma Initialize_status:
  "\<not> m_bInitialized s \<Longrightarrow> fst (Initialize env s cin) = fst (bring_up env)"
  by (simp add: Initialize_def Let_def bring_up_def)

lemma Initialize_ok:
  "\<not> m_bInitialized s \<Longrightarrow> fst (bring_up env) \<Longrightarrow>
   Initialize env s cin =
     (success,
      s\<lparr>m_pCmdBuffer := Some (map (new_MIchar env) [0..<m_constBufferSize s]),
        m_pStdin := Some stdin_handle, m_bInitialized := True\<rparr>,
      clearerr cin)"
  by (simp add: Initialize_def Let_def bring_up_def)

lemma Initialize_failed:
  "\<not> m_bInitialized s \<Longrightarrow> \<not> fst (bring_up env) \<Longrightarrow>
   Initialize env s cin =
     (failure,
      s\<lparr>m_strMILastErrorDescription :=
          Format_MIRSRC env IDS_MI_INIT_ERR_OS_STDIN_HANDLER (snd (bring_up env))\<rparr>,
      clearerr cin)"
  by (cases s) (simp add: Initialize_def Let_def bring_up_def SetErrorDescription_def)

lemma Shutdown_again: "\<not> m_bInitialized s \<Longrightarrow> Shutdown env s = (success, s)"
  by (simp add: Shutdown_def)

lemma Shutdown_initialized:
  "m_bInitialized s \<Longrightarrow>
   Shutdown env s =
     (success,
      s\<lparr>m_bInitialized := False, m_pCmdBuffer := None, m_pStdin := None,
        m_strMILastErrorDescription :=
          (if fst (teardown env) then []
           else Format_MIRSRC env IDS_MI_SHTDWN_ERR_OS_STDIN_HANDLER (snd (teardown env)))\<rparr>)"
  by (cases s) (simp add: Shutdown_def Let_def teardown_def SetErrorDescription_def
      ClrErrorDescription_def)

lemma Shutdown_twice: "Shutdown env' (snd (Shutdown env s)) = (success, snd (Shutdown env s))"
  by (rule Shutdown_again) (rule Shutdown_uninit)

lemma reinitialize:
  assumes "\<not> m_bInitialized s" and "fst (bring_up e1)" and "fst (bring_up e3)"
  shows "Initialize e3 (snd (Shutdown e2 (fst (snd (Initialize e1 s cin))))) cin' =
     (success,
      (fst (snd (Initialize e1 s cin)))
        \<lparr>m_pCmdBuffer := Some (map (new_MIchar e3) [0..<m_constBufferSize s]),
         m_strMILastErrorDescription :=
           (if fst (teardown e2) then []
            else Format_MIRSRC e2 IDS_MI_SHTDWN_ERR_OS_STDIN_HANDLER (snd (teardown e2)))\<rparr>,
      clearerr cin')"
  using assms
  by (cases s) (simp add: Initialize_ok Shutdown_initialized)

lemma bring_up_env_ok: "bring_up env_ok = (success, [])"
  by (simp add: bring_up_def env_ok_def)

lemma teardown_env_ok: "teardown env_ok = (success, [])"
  by (simp add: teardown_def env_ok_def)

lemma bring_up_env_bad: "bring_up env_bad = (failure, ''resources'')"
  by (simp add: bring_up_def env_bad_def)

lemma constructor_uninitialized: "\<not> m_bInitialized constructor"
  by (simp add: constructor_def)

lemma ready_eq:
  "ready = constructor\<lparr>m_pCmdBuffer := Some (map (new_MIchar env_ok) [0..<1024]),
                       m_pStdin := Some stdin_handle, m_bInitialized := True\<rparr>"
  by (simp add: ready_def Initialize_ok constructor_uninitialized bring_up_env_ok)
     (simp add: constructor_def)

lemma Format_env_bad: "Format_MIRSRC env_bad i msg = ''Stdin handler: '' @ msg"
  by (simp add: env_bad_def)

text \<open>
  C8. \<open>Initialize\<close> on an initialized instance returns success and changes nothing.
  \<open>Shutdown\<close> on the freshly constructed instance, and a second \<open>Shutdown\<close> after
  any first one, return success and change nothing. After \<open>Initialize\<close>,
  \<open>Shutdown\<close> and \<open>Initialize\<close> with modules that start, the second
  \<open>Initialize\<close> succeeds and the instance is the one the first \<open>Initialize\<close> left,
  with a fresh buffer of the same size and with the error description \<open>Shutdown\<close>
  left; from the constructed instance, with modules that stop without error and the same
  allocator, the two instances are equal.
\<close>

theorem C8_Initialize_Shutdown_idempotent:
  "(m_bInitialized si \<longrightarrow> Initialize env si cin = (success, si, cin)) \<and>
   Shutdown env constructor = (success, constructor) \<and>
   fst (Shutdown env s) = success \<and>
   Shutdown env' (snd (Shutdown env s)) = (success, snd (Shutdown env s)) \<and>
   (\<not> m_bInitialized s \<and> fst (bring_up e1) \<and> fst (bring_up e3) \<longrightarrow>
      fst (Initialize e1 s cin) = success \<and>
      Initialize e3 (snd (Shutdown e2 (fst (snd (Initialize e1 s cin))))) cin' =
        (success,
         (fst (snd (Initialize e1 s cin)))
           \<lparr>m_pCmdBuffer := Some (map (new_MIchar e3) [0..<m_constBufferSize s]),
            m_strMILastErrorDescription :=
              (if fst (teardown e2) then []
               else Format_MIRSRC e2 IDS_MI_SHTDWN_ERR_OS_STDIN_HANDLER (snd (teardown e2)))\<rparr>,
         clearerr cin')) \<and>
   (fst (bring_up e1) \<and> fst (teardown e2) \<longrightarrow>
      fst (snd (Initialize e1 (snd (Shutdown e2 (fst (snd (Initialize e1 constructor cin))))) cin')) =
      fst (snd (Initialize e1 constructor cin)))"
proof -
  have a: "m_bInitialized si \<longrightarrow> Initialize env si cin = (success, si, cin)"
    by (simp add: Initialize_again)
  have b: "Shutdown env constructor = (success, constructor)"
    by (simp add: Shutdown_again constructor_def)
  have c: "\<not> m_bInitialized s \<and> fst (bring_up e1) \<and> fst (bring_up e3) \<longrightarrow>
      fst (Initialize e1 s cin) = success"
    by (simp add: Initialize_status)
  have d: "fst (bring_up e1) \<and> fst (teardown e2) \<longrightarrow>
      fst (snd (Initialize e1 (snd (Shutdown e2 (fst (snd (Initialize e1 constructor cin))))) cin')) =
      fst (snd (Initialize e1 constructor cin))"
    by (simp add: constructor_def Initialize_ok Shutdown_initialized)
  show ?thesis
    using a b c d Shutdown_status [of env s] Shutdown_twice [of env' env s]
      reinitialize [of s e1 e3 e2 cin cin']
    by blast
qed

theorem C8_Initialize_Shutdown_idempotent_witness:
  "m_bInitialized ready \<and>
   Initialize env_bad ready (cin_of [] EndOfFile) = (success, ready, cin_of [] EndOfFile) \<and>
   \<not> m_bInitialized constructor \<and> fst (bring_up env_ok) \<and> fst (teardown env_ok) \<and>
   Shutdown env_bad (snd (Shutdown env_bad constructor)) =
     (success, snd (Shutdown env_bad constructor)) \<and>
   fst (Initialize env_ok constructor (cin_of [] EndOfFile)) = success \<and>
   fst (snd (Initialize env_ok
     (snd (Shutdown env_ok (fst (snd (Initialize env_ok constructor (cin_of [] EndOfFile))))))
     (cin_of [] EndOfFile))) = ready"
proof -
  let ?cin = "cin_of [] EndOfFile"
  note t = C8_Initialize_Shutdown_idempotent [where si = ready and env = env_bad
      and cin = ?cin and s = constructor and env' = env_bad
      and ?e1.0 = env_ok and ?e2.0 = env_ok and ?e3.0 = env_ok and cin' = ?cin]
  have r: "fst (snd (Initialize env_ok constructor ?cin)) = ready"
    by (simp add: ready_def)
  have b: "fst (bring_up env_ok)" and d: "fst (teardown env_ok)"
    by (simp_all add: bring_up_env_ok teardown_env_ok)
  from t [unfolded r] ready_initialized constructor_uninitialized b d
  show ?thesis unfolding r by blast
qed

section \<open>The flag of the wait\<close>











section \<open>Consistency of the reachable instances\<close>

lemma consistent_constructor: "consistent constructor"
  by (simp add: consistent_def constructor_def)

lemma consistent_Initialize: "consistent s \<Longrightarrow> consistent (fst (snd (Initialize env s cin)))"
  by (cases "m_bInitialized s"; cases "fst (bring_up env)")
     (simp_all add: Initialize_again Initialize_ok Initialize_failed consistent_def)

lemma consistent_Shutdown: "consistent s \<Longrightarrow> consistent (snd (Shutdown env s))"
  by (cases "m_bInitialized s")
     (simp_all add: Shutdown_again Shutdown_initialized consistent_def)

lemma consistent_Interrupt: "consistent s \<Longrightarrow> consistent (InterruptReadLine s)"
  by (simp add: consistent_def InterruptReadLine_def split: option.splits)

lemma wait_loop_same:
  "wait_loop s a ps = Some r \<Longrightarrow>
   snd (snd r) = s \<or> snd (snd r) = InterruptReadLine s"
proof (induction ps arbitrary: s)
  case Nil
  then show ?case by (auto split: if_splits)
next
  case (Cons p ps)
  show ?case
  proof (cases "m_waitForInput s \<and> select_ret p = 0")
    case True
    with Cons.prems
    have "wait_loop (if interrupt_arrives p then InterruptReadLine s else s) a ps = Some r"
      by (simp add: Let_def)
    from Cons.IH [OF this] show ?thesis
      by (auto simp: InterruptReadLine_def split: if_splits)
  next
    case False
    with Cons.prems show ?thesis by (auto simp: Let_def split: if_splits)
  qed
qed

lemma InputAvailable_same:
  "InputAvailable W s a ps = Some r \<Longrightarrow>
   snd (snd r) = s \<or> snd (snd r) = InterruptReadLine s"
  by (auto simp: InputAvailable_def split: if_splits dest: wait_loop_same)

lemma store_bytes_length: "store_bytes bs buf = Inr buf' \<Longrightarrow> length buf' = length buf"
  by (auto simp: store_bytes_def split: if_splits)

lemma fgets_length: "fgets buf n cin = Inr (p, buf', cin') \<Longrightarrow> length buf' = length buf"
  by (auto simp: fgets_def split: if_splits prod.splits sum.splits dest: store_bytes_length)

lemma strip_new_line_length: "strip_new_line buf = Inr buf' \<Longrightarrow> length buf' = length buf"
  by (induction buf arbitrary: buf') (auto split: if_splits sum.splits)

lemma ReadLine_instance:
  assumes "ReadLine env s cin = Inr r"
  shows "\<exists>buf buf'. m_pCmdBuffer s = Some buf \<and> length buf' = length buf \<and>
           fst (snd (snd r)) = s\<lparr>m_pCmdBuffer := Some buf'\<rparr>"
  using assms
  by (auto simp: ReadLine_def Let_def split: option.splits sum.splits if_splits prod.splits
      dest!: fgets_length strip_new_line_length)

lemma consistent_ReadLine:
  "consistent s \<Longrightarrow> ReadLine env s cin = Inr r \<Longrightarrow> consistent (fst (snd (snd r)))"
  by (drule ReadLine_instance) (auto simp: consistent_def)

lemma consistent_step:
  assumes "consistent s" and "step W op (s, cin) = Some (s', cin')"
  shows "consistent s'"
proof (cases op)
  case (Op_Initialize env)
  with assms show ?thesis using consistent_Initialize [of s env cin]
    by (cases "Initialize env s cin") auto
next
  case (Op_Shutdown env)
  with assms show ?thesis using consistent_Shutdown [of s env] by auto
next
  case (Op_InputAvailable a ps)
  with assms show ?thesis
    by (auto split: option.splits dest!: InputAvailable_same intro: consistent_Interrupt)
next
  case (Op_ReadLine env)
  with assms show ?thesis by (auto split: sum.splits dest: consistent_ReadLine)
next
  case Op_InterruptReadLine
  with assms show ?thesis by (auto intro: consistent_Interrupt)
qed

lemma consistent_run:
  "run W ops (s, cin) = Some (s', cin') \<Longrightarrow> consistent s \<Longrightarrow> consistent s'"
proof (induction ops arbitrary: s cin)
  case Nil
  then show ?case by simp
next
  case (Cons op ops)
  then obtain s1 cin1 where st: "step W op (s, cin) = Some (s1, cin1)"
    and rn: "run W ops (s1, cin1) = Some (s', cin')"
    by (auto split: option.splits)
  from Cons.prems(2) st have "consistent s1" by (rule consistent_step)
  with rn show ?case by (rule Cons.IH)
qed

lemma reachable_consistent:
  "run W ops (constructor, cin0) = Some (s, cin) \<Longrightarrow> consistent s"
  by (erule consistent_run) (rule consistent_constructor)


section \<open>A failed Initialize\<close>

text \<open>
  C10. On an instance reached from the constructed one by any sequence of calls, an
  \<open>Initialize\<close> that fails changes the error description and nothing else: the
  buffer and the stream pointer are null, the instance is not initialized, and a
  \<open>Shutdown\<close> that follows returns success and changes nothing.
\<close>

theorem C10_failed_Initialize:
  assumes "run W ops (constructor, cin0) = Some (s, cin)"
    and "fst (Initialize env s cin) = failure"
  shows "fst (snd (Initialize env s cin)) =
           s\<lparr>m_strMILastErrorDescription :=
               Format_MIRSRC env IDS_MI_INIT_ERR_OS_STDIN_HANDLER (snd (bring_up env))\<rparr> \<and>
         m_pCmdBuffer (fst (snd (Initialize env s cin))) = None \<and>
         m_pStdin (fst (snd (Initialize env s cin))) = None \<and>
         \<not> m_bInitialized (fst (snd (Initialize env s cin))) \<and>
         Shutdown env' (fst (snd (Initialize env s cin))) =
           (success, fst (snd (Initialize env s cin)))"
proof -
  from assms(2) have ni: "\<not> m_bInitialized s"
    by (auto simp: Initialize_again)
  with assms(2) have nb: "\<not> fst (bring_up env)"
    by (simp add: Initialize_status)
  from assms(1) have "consistent s" by (rule reachable_consistent)
  with ni have nul: "m_pCmdBuffer s = None" "m_pStdin s = None"
    by (auto simp: consistent_def)
  let ?s' = "s\<lparr>m_strMILastErrorDescription :=
               Format_MIRSRC env IDS_MI_INIT_ERR_OS_STDIN_HANDLER (snd (bring_up env))\<rparr>"
  have eq: "fst (snd (Initialize env s cin)) = ?s'"
    using ni nb by (simp add: Initialize_failed)
  have "\<not> m_bInitialized ?s'" using ni by simp
  then have "Shutdown env' ?s' = (success, ?s')" by (rule Shutdown_again)
  with eq nul ni show ?thesis by simp
qed

theorem C10_failed_Initialize_witness:
  "run False [Op_Initialize env_ok, Op_Shutdown env_ok] (constructor, cin_of [] EndOfFile)
     = Some (constructor, cin_of [] EndOfFile) \<and>
   fst (Initialize env_bad constructor (cin_of [] EndOfFile)) = failure \<and>
   fst (snd (Initialize env_bad constructor (cin_of [] EndOfFile))) =
     constructor\<lparr>m_strMILastErrorDescription := ''Stdin handler: resources''\<rparr> \<and>
   m_pCmdBuffer (fst (snd (Initialize env_bad constructor (cin_of [] EndOfFile)))) = None \<and>
   Shutdown env_bad (fst (snd (Initialize env_bad constructor (cin_of [] EndOfFile)))) =
     (success, fst (snd (Initialize env_bad constructor (cin_of [] EndOfFile))))"
proof -
  let ?cin = "cin_of [] EndOfFile"
  have r: "run False [Op_Initialize env_ok, Op_Shutdown env_ok] (constructor, ?cin)
      = Some (constructor, ?cin)"
    by (simp add: Initialize_ok Shutdown_initialized constructor_uninitialized
        bring_up_env_ok teardown_env_ok)
       (simp add: constructor_def cin_of_def clearerr_def)
  have f: "fst (Initialize env_bad constructor ?cin) = failure"
    by (simp add: Initialize_status constructor_uninitialized bring_up_env_bad)
  have e: "Format_MIRSRC env_bad IDS_MI_INIT_ERR_OS_STDIN_HANDLER (snd (bring_up env_bad)) =
      ''Stdin handler: resources''"
    by (simp add: bring_up_env_bad Format_env_bad)
  note t = C10_failed_Initialize [OF r f, of env_bad, unfolded e]
  from t r f show ?thesis by blast
qed



section \<open>Reading a line\<close>

lemma fgets_chars_split:
  "fgets_chars k cs = (r, rest, e) \<Longrightarrow> cs = r @ rest \<and> length r \<le> k"
proof (induction k cs arbitrary: r rest e rule: fgets_chars.induct)
  case (1 cs)
  then show ?case by simp
next
  case (2 k)
  then show ?case by simp
next
  case (3 k c cs)
  then show ?case by (auto split: if_splits prod.splits)
qed

lemma fgets_consumes:
  assumes "fgets buf n cin = Inr (p, buf', cin')"
  shows "\<exists>r. pending cin = r @ pending cin' \<and> length r \<le> n - 1"
proof (cases "n = 0 \<or> 1 < n \<and> eof_ind cin")
  case True
  with assms have "cin' = cin" by (auto simp: fgets_def split: if_splits)
  then show ?thesis by simp
next
  case False
  obtain r rest e where f: "fgets_chars (n - 1) (pending cin) = (r, rest, e)"
    by (cases "fgets_chars (n - 1) (pending cin)")
  then have "pending cin = r @ rest \<and> length r \<le> n - 1" by (rule fgets_chars_split)
  moreover from assms False f have "pending cin' = rest"
    by (auto simp: fgets_def split: if_splits sum.splits)
  ultimately show ?thesis by blast
qed

lemma ReadLine_consumes:
  assumes "ReadLine env s cin = Inr (line, msg, s', cin')"
  shows "\<exists>r. pending cin = r @ pending cin' \<and> length r \<le> m_constBufferSize s - 1"
  using assms
  by (auto simp: ReadLine_def Let_def split: option.splits sum.splits if_splits prod.splits
      dest: fgets_consumes)

lemma fgets_chars_line:
  "LF \<notin> set line \<Longrightarrow> length line < k \<Longrightarrow>
   fgets_chars k (line @ LF # rest) = (line @ [LF], rest, False)"
proof (induction line arbitrary: k)
  case Nil
  then show ?case by (cases k) simp_all
next
  case (Cons c line)
  then show ?case by (cases k) auto
qed

lemma fgets_chars_all:
  "LF \<notin> set line \<Longrightarrow> length line < k \<Longrightarrow> fgets_chars k line = (line, [], True)"
proof (induction line arbitrary: k)
  case Nil
  then show ?case by (cases k) simp_all
next
  case (Cons c line)
  then show ?case by (cases k) auto
qed

lemma fgets_line:
  assumes "LF \<notin> set line" and "length line < n - 1" and "length buf = n"
    and "pending cin = line @ LF # rest" and "\<not> eof_ind cin"
  shows "fgets buf n cin =
     Inr (True, line @ LF # NUL # drop (length line + 2) buf, cin\<lparr>pending := rest\<rparr>)"
proof -
  from assms(2) have n: "n \<noteq> 0" by simp
  from assms(1,2) have "fgets_chars (n - 1) (line @ LF # rest) = (line @ [LF], rest, False)"
    by (rule fgets_chars_line)
  moreover from assms(2,3) have "length ((line @ [LF]) @ [NUL]) \<le> length buf" by simp
  ultimately show ?thesis using n assms(4,5)
    by (simp add: fgets_def store_bytes_def)
qed

lemma fgets_no_data:
  assumes "1 < n" and "pending cin = []"
  shows "fgets buf n cin =
     Inr (False, buf,
          if eof_ind cin then cin
          else if at_end cin = ReadError then cin\<lparr>err_ind := True\<rparr>
          else cin\<lparr>eof_ind := True\<rparr>)"
proof -
  from assms(1) obtain k where "n - 1 = Suc k" by (cases "n - 1") simp_all
  with assms show ?thesis
    by (cases cin) (simp add: fgets_def store_bytes_def)
qed

lemma fgets_at_eof:
  "1 < n \<Longrightarrow> eof_ind cin \<Longrightarrow> fgets buf n cin = Inr (False, buf, cin)"
  by (simp add: fgets_def)

lemma strip_new_line_text:
  "NUL \<notin> set xs \<Longrightarrow>
   strip_new_line (xs @ NUL # ys) = Inr (overwrite_first_terminator xs @ NUL # ys)"
  by (induction xs) auto

lemma c_str_text:
  "NUL \<notin> set xs \<Longrightarrow>
   c_str (overwrite_first_terminator xs @ NUL # ys) = takeWhile (\<lambda>c. c \<noteq> LF \<and> c \<noteq> CR) xs"
  by (induction xs) (auto simp: c_str_def)

lemma takeWhile_line:
  "LF \<notin> set line \<Longrightarrow>
   takeWhile (\<lambda>c. c \<noteq> LF \<and> c \<noteq> CR) (line @ [LF]) = takeWhile (\<lambda>c. c \<noteq> CR) line"
  by (induction line) auto

lemma ReadLine_line:
  assumes "m_pCmdBuffer s = Some buf" and "length buf = m_constBufferSize s"
    and "pending cin = line @ LF # rest" and "LF \<notin> set line" and "NUL \<notin> set line"
    and "length line < m_constBufferSize s - 1" and "\<not> eof_ind cin"
  shows "ReadLine env s cin =
     Inr (Some (takeWhile (\<lambda>c. c \<noteq> LF \<and> c \<noteq> CR) (line @ [LF])), [],
          s\<lparr>m_pCmdBuffer :=
              Some (overwrite_first_terminator (line @ [LF]) @ NUL # drop (length line + 2) buf)\<rparr>,
          cin\<lparr>pending := rest\<rparr>)"
proof -
  let ?tl = "drop (length line + 2) buf"
  have f: "fgets buf (m_constBufferSize s) cin =
      Inr (True, (line @ [LF]) @ NUL # ?tl, cin\<lparr>pending := rest\<rparr>)"
    using fgets_line [OF assms(4,6,2,3,7)] by simp
  from assms(5) have n: "NUL \<notin> set (line @ [LF])" by simp
  have st: "strip_new_line ((line @ [LF]) @ NUL # ?tl) =
      Inr (overwrite_first_terminator (line @ [LF]) @ NUL # ?tl)"
    using n by (rule strip_new_line_text)
  have cs: "c_str (overwrite_first_terminator (line @ [LF]) @ NUL # ?tl) =
      takeWhile (\<lambda>c. c \<noteq> LF \<and> c \<noteq> CR) (line @ [LF])"
    using n by (rule c_str_text)
  show ?thesis
    unfolding ReadLine_def Let_def assms(1) option.case f sum.case prod.case st cs
    by simp
qed

lemma ReadLine_no_data:
  assumes "m_pCmdBuffer s = Some buf" and "m_pStdin s = Some h"
    and "1 < m_constBufferSize s" and "pending cin = []"
  shows "ReadLine env s cin =
     Inr (None,
          if err_ind cin \<or> (\<not> eof_ind cin \<and> at_end cin = ReadError)
          then strerror_errno env else [],
          s,
          if eof_ind cin then cin
          else if at_end cin = ReadError then cin\<lparr>err_ind := True\<rparr>
          else cin\<lparr>eof_ind := True\<rparr>)"
proof -
  from assms(1) have "s\<lparr>m_pCmdBuffer := Some buf\<rparr> = s" by (cases s) simp
  then show ?thesis
    unfolding ReadLine_def Let_def assms(1,2) option.case fgets_no_data [OF assms(3,4)]
      sum.case prod.case
    by (simp add: ferror_def)
qed

lemma ReadLine_at_eof:
  assumes "m_pCmdBuffer s = Some buf" and "m_pStdin s = Some h"
    and "1 < m_constBufferSize s" and "eof_ind cin"
  shows "ReadLine env s cin =
     Inr (None, if err_ind cin then strerror_errno env else [], s, cin)"
proof -
  from assms(1) have "s\<lparr>m_pCmdBuffer := Some buf\<rparr> = s" by (cases s) simp
  then show ?thesis
    unfolding ReadLine_def Let_def assms(1,2) option.case fgets_at_eof [OF assms(3,4)]
      sum.case prod.case
    by (simp add: ferror_def)
qed

lemma ready_fields:
  "m_pCmdBuffer ready = Some (map (new_MIchar env_ok) [0..<1024])"
  "m_pStdin ready = Some stdin_handle"
  "m_constBufferSize ready = 1024"
  "m_strMILastErrorDescription ready = []"
  "m_waitForInput ready"
  by (simp_all add: ready_eq constructor_def)

lemma strerror_env_ok: "strerror_errno env_ok = ''Input/output error''"
  by (simp add: env_ok_def)


section \<open>ReadLine on an instance that is not initialized\<close>

lemma ReadLine_null_buffer: "m_pCmdBuffer s = None \<Longrightarrow> ReadLine env s cin = Inl NullPointer"
  by (simp add: ReadLine_def)

lemma Shutdown_buffer:
  "consistent s \<Longrightarrow> m_pCmdBuffer (snd (Shutdown env s)) = None"
  by (cases "m_bInitialized s")
     (auto simp: Shutdown_again Shutdown_initialized consistent_def)

text \<open>
  The counterexample to C3 as stated: after \<open>Initialize\<close> and \<open>Shutdown\<close>,
  \<open>ReadLine\<close> with a line waiting on the stream hands the null buffer pointer to
  \<open>fgets\<close>; it does not return a failure.
\<close>

theorem C3_counterexample:
  "ReadLine env_ok (snd (Shutdown env_ok ready)) (cin_of (''step'' @ [LF]) EndOfFile) =
     Inl NullPointer"
  by (simp add: ReadLine_null_buffer Shutdown_initialized ready_initialized)

text \<open>
  C3, amended. On an instance reached from the constructed one by any sequence of
  calls, \<open>Shutdown\<close> leaves the buffer pointer null, so the released buffer is not
  used again; \<open>ReadLine\<close> makes no check of its own, and a call after \<open>Shutdown\<close>,
  or on any reached instance that is not initialized, hands the null pointer to
  \<open>fgets\<close> whatever the stream holds.
\<close>

theorem C3_ReadLine_after_Shutdown:
  assumes "run W ops (constructor, cin0) = Some (s, cin)"
  shows "m_pCmdBuffer (snd (Shutdown env s)) = None \<and>
         ReadLine env' (snd (Shutdown env s)) cin' = Inl NullPointer \<and>
         (run W opsb (constructor, cin0) = Some (sb, cinb) \<and> \<not> m_bInitialized sb \<longrightarrow>
            ReadLine env' sb cin' = Inl NullPointer)"
proof -
  from assms have "consistent s" by (rule reachable_consistent)
  then have "m_pCmdBuffer (snd (Shutdown env s)) = None" by (rule Shutdown_buffer)
  moreover have "m_pCmdBuffer sb = None"
    if "run W opsb (constructor, cin0) = Some (sb, cinb)" and "\<not> m_bInitialized sb"
    using reachable_consistent [OF that(1)] that(2) by (auto simp: consistent_def)
  ultimately show ?thesis by (simp add: ReadLine_null_buffer)
qed

theorem C3_ReadLine_after_Shutdown_witness:
  "run False [Op_Initialize env_ok, Op_InputAvailable False [data_poll]]
     (constructor, cin_of (''step'' @ [LF]) EndOfFile) \<noteq> None \<and>
   ReadLine env_ok
     (snd (Shutdown env_bad (fst (the (run False
        [Op_Initialize env_ok, Op_InputAvailable False [data_poll]]
        (constructor, cin_of (''step'' @ [LF]) EndOfFile))))))
     (cin_of (''step'' @ [LF]) EndOfFile) = Inl NullPointer \<and>
   run False [Op_Initialize env_bad, Op_InterruptReadLine]
     (constructor, cin_of (''step'' @ [LF]) EndOfFile) \<noteq> None \<and>
   \<not> m_bInitialized (fst (the (run False [Op_Initialize env_bad, Op_InterruptReadLine]
     (constructor, cin_of (''step'' @ [LF]) EndOfFile)))) \<and>
   ReadLine env_ok
     (fst (the (run False [Op_Initialize env_bad, Op_InterruptReadLine]
        (constructor, cin_of (''step'' @ [LF]) EndOfFile))))
     (cin_of (''step'' @ [LF]) EndOfFile) = Inl NullPointer"
proof -
  let ?ops = "[Op_Initialize env_ok, Op_InputAvailable False [data_poll]]"
  let ?opsb = "[Op_Initialize env_bad, Op_InterruptReadLine]"
  let ?w = "(constructor, cin_of (''step'' @ [LF]) EndOfFile)"
  have r: "run False ?ops ?w \<noteq> None"
    by (simp add: Initialize_ok constructor_uninitialized bring_up_env_ok InputAvailable_def
        data_poll_def Let_def)
  then have r': "run False ?ops ?w =
      Some (fst (the (run False ?ops ?w)), snd (the (run False ?ops ?w)))"
    by auto
  have q: "run False ?opsb ?w \<noteq> None"
    by (simp add: Initialize_failed constructor_uninitialized bring_up_env_bad)
  then have q': "run False ?opsb ?w =
      Some (fst (the (run False ?opsb ?w)), snd (the (run False ?opsb ?w)))"
    by auto
  have u: "\<not> m_bInitialized (fst (the (run False ?opsb ?w)))"
    by (simp add: Initialize_failed constructor_uninitialized bring_up_env_bad
        InterruptReadLine_def)
  from C3_ReadLine_after_Shutdown [OF r', where env = env_bad and env' = env_ok
      and cin' = "cin_of (''step'' @ [LF]) EndOfFile" and opsb = ?opsb
      and sb = "fst (the (run False ?opsb ?w))" and cinb = "snd (the (run False ?opsb ?w))"]
    r q q' u
  show ?thesis by blast
qed

section \<open>The error description\<close>

lemma Initialize_error_description:
  "m_strMILastErrorDescription (fst (snd (Initialize env s cin))) =
     (if fst (Initialize env s cin) then m_strMILastErrorDescription s
      else Format_MIRSRC env IDS_MI_INIT_ERR_OS_STDIN_HANDLER (snd (bring_up env)))"
  by (cases "m_bInitialized s"; cases "fst (bring_up env)")
     (simp_all add: Initialize_again Initialize_ok Initialize_failed)

lemma InputAvailable_error_description:
  "InputAvailable W s a ps = Some r \<Longrightarrow>
   m_strMILastErrorDescription (snd (snd r)) = m_strMILastErrorDescription s"
  by (drule InputAvailable_same) (auto simp: InterruptReadLine_def)

lemma ReadLine_error_description:
  "ReadLine env s cin = Inr r \<Longrightarrow>
   m_strMILastErrorDescription (fst (snd (snd r))) = m_strMILastErrorDescription s"
  by (drule ReadLine_instance) auto

lemma ReadLine_vwErrMsg:
  "ReadLine env s cin = Inr (line, msg, s', cin') \<Longrightarrow>
   msg = (if line = None \<and> ferror cin' then strerror_errno env else [])"
  by (auto simp: ReadLine_def Let_def split: option.splits sum.splits if_splits prod.splits)

text \<open>
  The counterexample to C6 as stated: an \<open>Initialize\<close> that succeeds after one that
  failed leaves the error description of the failure in place.
\<close>

theorem C6_counterexample:
  "fst (Initialize env_ok (fst (snd (Initialize env_bad constructor (cin_of [] EndOfFile))))
         (cin_of [] EndOfFile)) = success \<and>
   m_strMILastErrorDescription
     (fst (snd (Initialize env_ok
        (fst (snd (Initialize env_bad constructor (cin_of [] EndOfFile))))
        (cin_of [] EndOfFile)))) = ''Stdin handler: resources''"
  by (simp add: Initialize_failed Initialize_ok Initialize_status constructor_uninitialized
      bring_up_env_bad bring_up_env_ok)
     (simp add: Format_env_bad constructor_def)

text \<open>
  C6, amended. Of all the calls, \<open>Shutdown\<close> on an initialized instance alone
  clears the error description of the instance, and it sets it again when the modules
  report an error as they stop; \<open>Shutdown\<close> on an instance that is not initialized,
  \<open>InterruptReadLine\<close> and \<open>InputAvailable\<close> leave it as it was. \<open>Initialize\<close>
  leaves it as it was when it succeeds and sets it when it fails. \<open>ReadLine\<close> does
  not touch it; its own out-parameter \<^verbatim>\<open>vwErrMsg\<close> is empty unless no line is
  returned and the error indicator of the stream is set, and then it is the text of the
  system error.
\<close>

theorem C6_error_description_writes:
  "(ReadLine env s cin = Inr (line, msg, sa, cina) \<longrightarrow>
      m_strMILastErrorDescription sa = m_strMILastErrorDescription s \<and>
      msg = (if line = None \<and> ferror cina then strerror_errno env else [])) \<and>
   m_strMILastErrorDescription (fst (snd (Initialize env s cin))) =
     (if fst (Initialize env s cin) then m_strMILastErrorDescription s
      else Format_MIRSRC env IDS_MI_INIT_ERR_OS_STDIN_HANDLER (snd (bring_up env))) \<and>
   (InputAvailable W s vwbAvail ps = Some (ok, avail, sb) \<longrightarrow>
      m_strMILastErrorDescription sb = m_strMILastErrorDescription s) \<and>
   m_strMILastErrorDescription (InterruptReadLine s) = m_strMILastErrorDescription s \<and>
   m_strMILastErrorDescription (snd (Shutdown env s)) =
     (if \<not> m_bInitialized s then m_strMILastErrorDescription s
      else if fst (teardown env) then []
      else Format_MIRSRC env IDS_MI_SHTDWN_ERR_OS_STDIN_HANDLER (snd (teardown env)))"
proof -
  have sh: "m_strMILastErrorDescription (snd (Shutdown env s)) =
     (if \<not> m_bInitialized s then m_strMILastErrorDescription s
      else if fst (teardown env) then []
      else Format_MIRSRC env IDS_MI_SHTDWN_ERR_OS_STDIN_HANDLER (snd (teardown env)))"
    by (cases "m_bInitialized s") (simp_all add: Shutdown_again Shutdown_initialized)
  have ir: "m_strMILastErrorDescription (InterruptReadLine s) = m_strMILastErrorDescription s"
    by (simp add: InterruptReadLine_def)
  from sh ir ReadLine_error_description [of env s cin "(line, msg, sa, cina)"]
    ReadLine_vwErrMsg [of env s cin line msg sa cina]
    Initialize_error_description [of env s cin]
    InputAvailable_error_description [of W s vwbAvail ps "(ok, avail, sb)"]
  show ?thesis by simp
qed

theorem C6_error_description_writes_witness:
  "ReadLine env_ok ready (cin_of [] ReadError) =
     Inr (None, ''Input/output error'', ready, (cin_of [] ReadError)\<lparr>err_ind := True\<rparr>) \<and>
   m_strMILastErrorDescription ready = [] \<and>
   ferror ((cin_of [] ReadError)\<lparr>err_ind := True\<rparr>) \<and>
   InputAvailable False ready False [timeout_poll, data_poll] = Some (success, True, ready) \<and>
   m_bInitialized ready \<and>
   m_strMILastErrorDescription (snd (Shutdown env_ok ready)) = []"
proof -
  let ?cin = "cin_of [] ReadError"
  have "1 < m_constBufferSize ready" and "pending ?cin = []"
    by (simp_all add: ready_fields cin_of_def)
  from ReadLine_no_data [OF ready_fields(1,2) this, of env_ok]
  have a: "ReadLine env_ok ready ?cin =
      Inr (None, ''Input/output error'', ready, ?cin\<lparr>err_ind := True\<rparr>)"
    by (simp add: cin_of_def strerror_env_ok)
  have b: "InputAvailable False ready False [timeout_poll, data_poll] = Some (success, True, ready)"
    by (simp add: InputAvailable_def timeout_poll_def data_poll_def ready_fields Let_def)
  have f: "ferror (?cin\<lparr>err_ind := True\<rparr>)" by (simp add: ferror_def)
  have d: "fst (teardown env_ok)" by (simp add: teardown_env_ok)
  from C6_error_description_writes [where env = env_ok and s = ready and cin = ?cin
      and line = None and msg = "''Input/output error''" and sa = ready
      and cina = "?cin\<lparr>err_ind := True\<rparr>" and W = False and vwbAvail = False
      and ps = "[timeout_poll, data_poll]" and ok = success and avail = True and sb = ready]
    a b f d ready_initialized
  show ?thesis by (simp add: ready_fields)
qed

section \<open>The wait and its interruption\<close>

lemma wait_loop_cancelled:
  "\<not> m_waitForInput s \<Longrightarrow> wait_loop s a ps = Some (failure, a, s)"
  by (cases ps) simp_all

text \<open>
  C1 at the failing input: with the flag cleared before the call and \<^verbatim>\<open>vwbAvail\<close>
  true on entry, \<open>InputAvailable\<close> returns failure and \<^verbatim>\<open>vwbAvail\<close> is still
  true; on the error of \<^verbatim>\<open>::select\<close> the same out-parameter is set to false.
\<close>

theorem C1_cancel_leaves_vwbAvail:
  "InputAvailable False (InterruptReadLine ready) True [timeout_poll, data_poll] =
     Some (failure, True, InterruptReadLine ready) \<and>
   InputAvailable False ready True [\<lparr>select_ret = - 1, interrupt_arrives = False\<rparr>] =
     Some (failure, False, ready)"
  by (simp add: InputAvailable_def InterruptReadLine_def wait_loop_cancelled ready_eq
      constructor_def)

lemma Interrupt_absorb: "\<not> m_waitForInput s \<Longrightarrow> InterruptReadLine s = s"
  by (cases s) (simp add: InterruptReadLine_def)

lemma wait_loop_interrupted:
  "k < length ps \<Longrightarrow> interrupt_arrives (ps ! k) \<Longrightarrow>
   \<exists>r. wait_loop s a (take (Suc k) ps) = Some r \<and> wait_loop s a ps = Some r \<and>
       ((\<forall>i\<le>k. select_ret (ps ! i) = 0) \<longrightarrow> r = (failure, a, InterruptReadLine s))"
proof (induction ps arbitrary: s k)
  case Nil
  then show ?case by simp
next
  case (Cons p ps)
  have tk: "take (Suc k) (p # ps) = p # take k ps" by simp
  show ?case
  proof (cases "m_waitForInput s")
    case False
    then have "wait_loop s a (take (Suc k) (p # ps)) = Some (failure, a, s)"
      and "wait_loop s a (p # ps) = Some (failure, a, s)"
      and "InterruptReadLine s = s"
      by (simp_all add: wait_loop_cancelled Interrupt_absorb del: wait_loop.simps take_Suc_Cons)
    then show ?thesis by simp
  next
    case flag: True
    show ?thesis
    proof (cases "select_ret p = 0")
      case False
      then have "\<not> (\<forall>i\<le>k. select_ret ((p # ps) ! i) = 0)"
        by (auto intro: exI [of _ 0])
      moreover from flag False
      have "wait_loop s a (p # take k ps) = wait_loop s a (p # ps)"
        and "wait_loop s a (p # ps) \<noteq> None"
        by (auto simp: Let_def)
      ultimately show ?thesis unfolding tk by auto
    next
      case ret: True
      let ?s1 = "if interrupt_arrives p then InterruptReadLine s else s"
      have same: "InterruptReadLine ?s1 = InterruptReadLine s"
        by (simp add: InterruptReadLine_def)
      from flag ret have unf: "wait_loop s a (p # qs) = wait_loop ?s1 a qs" for qs
        by (simp add: Let_def)
      show ?thesis
      proof (cases k)
        case 0
        with Cons.prems have arr: "interrupt_arrives p" by simp
        then have "\<not> m_waitForInput ?s1" by (simp add: InterruptReadLine_def)
        then have "wait_loop ?s1 a (take k ps) = Some (failure, a, ?s1)"
          and "wait_loop ?s1 a ps = Some (failure, a, ?s1)"
          by (simp_all add: wait_loop_cancelled del: wait_loop.simps)
        moreover from arr have "?s1 = InterruptReadLine s" by simp
        ultimately show ?thesis unfolding tk unf by simp
      next
        case (Suc k')
        with Cons.prems have "k' < length ps" and "interrupt_arrives (ps ! k')" by simp_all
        from Cons.IH [OF this, of ?s1] obtain r where
          r: "wait_loop ?s1 a (take (Suc k') ps) = Some r" "wait_loop ?s1 a ps = Some r"
            "(\<forall>i\<le>k'. select_ret (ps ! i) = 0) \<longrightarrow> r = (failure, a, InterruptReadLine ?s1)"
          by blast
        have "(\<forall>i\<le>k. select_ret ((p # ps) ! i) = 0) \<longrightarrow> (\<forall>i\<le>k'. select_ret (ps ! i) = 0)"
        proof (intro impI allI)
          fix i assume a: "\<forall>i\<le>k. select_ret ((p # ps) ! i) = 0" and "i \<le> k'"
          then have "Suc i \<le> k" using Suc by simp
          with a have "select_ret ((p # ps) ! Suc i) = 0" by blast
          then show "select_ret (ps ! i) = 0" by simp
        qed
        with r(3) have "(\<forall>i\<le>k. select_ret ((p # ps) ! i) = 0) \<longrightarrow>
            r = (failure, a, InterruptReadLine s)"
          unfolding same by blast
        moreover have "wait_loop s a (take (Suc k) (p # ps)) = Some r"
          unfolding tk unf using r(1) Suc by simp
        moreover have "wait_loop s a (p # ps) = Some r"
          unfolding unf using r(2) .
        ultimately show ?thesis by blast
      qed
    qed
  qed
qed

text \<open>
  C5. When \<open>InterruptReadLine\<close> is called during the poll of index \<open>k\<close>,
  \<open>InputAvailable\<close> returns with the polls up to that one, so it makes no poll after
  it, whatever the polls report; and when the polls up to that one all time out (the
  wait is blocked), it returns failure, leaves \<^verbatim>\<open>vwbAvail\<close> as it was, and the
  flag is false.
\<close>

theorem C5_interrupt_ends_wait:
  assumes "k < length ps" and "interrupt_arrives (ps ! k)"
  shows "\<exists>r. InputAvailable W s vwbAvail (take (Suc k) ps) = Some r \<and>
             InputAvailable W s vwbAvail ps = Some r \<and>
             ((\<forall>i\<le>k. select_ret (ps ! i) = 0) \<longrightarrow>
                fst r = failure \<and> fst (snd r) = vwbAvail \<and>
                (\<not> W \<longrightarrow> \<not> m_waitForInput (snd (snd r))))"
proof (cases W)
  case True
  then show ?thesis by (simp add: InputAvailable_def)
next
  case False
  from wait_loop_interrupted [OF assms, of s vwbAvail] obtain r where
    "wait_loop s vwbAvail (take (Suc k) ps) = Some r" "wait_loop s vwbAvail ps = Some r"
    "(\<forall>i\<le>k. select_ret (ps ! i) = 0) \<longrightarrow> r = (failure, vwbAvail, InterruptReadLine s)"
    by blast
  with False show ?thesis by (auto simp: InputAvailable_def InterruptReadLine_def)
qed

theorem C5_interrupt_ends_wait_witness:
  "Suc 0 < length [timeout_poll, interrupted_poll, timeout_poll, data_poll] \<and>
   interrupt_arrives ([timeout_poll, interrupted_poll, timeout_poll, data_poll] ! Suc 0) \<and>
   select_ret ([timeout_poll, interrupted_poll, timeout_poll, data_poll] ! 0) = 0 \<and>
   select_ret ([timeout_poll, interrupted_poll, timeout_poll, data_poll] ! Suc 0) = 0 \<and>
   InputAvailable False ready False [timeout_poll, interrupted_poll] =
     Some (failure, False, InterruptReadLine ready) \<and>
   InputAvailable False ready False [timeout_poll, interrupted_poll, timeout_poll, data_poll] =
     Some (failure, False, InterruptReadLine ready)"
proof -
  let ?ps = "[timeout_poll, interrupted_poll, timeout_poll, data_poll]"
  have k: "Suc 0 < length ?ps" by simp
  have i: "interrupt_arrives (?ps ! Suc 0)" by (simp add: interrupted_poll_def)
  have z: "\<forall>i\<le>Suc 0. select_ret (?ps ! i) = 0"
    by (simp add: le_Suc_eq timeout_poll_def interrupted_poll_def)
  have e: "InputAvailable False ready False [timeout_poll, interrupted_poll] =
      Some (failure, False, InterruptReadLine ready)"
    by (simp add: InputAvailable_def timeout_poll_def interrupted_poll_def ready_eq
        constructor_def InterruptReadLine_def Let_def)
  from C5_interrupt_ends_wait [OF k i, of False ready False] e
  have "InputAvailable False ready False ?ps = Some (failure, False, InterruptReadLine ready)"
    by auto
  moreover have "select_ret (?ps ! 0) = 0" and "select_ret (?ps ! Suc 0) = 0"
    by (simp_all add: timeout_poll_def interrupted_poll_def)
  ultimately show ?thesis using k i e by blast
qed

section \<open>What ReadLine returns\<close>

lemma ReadLine_last_line:
  assumes "m_pCmdBuffer s = Some buf" and "length buf = m_constBufferSize s"
    and "pending cin = line" and "line \<noteq> []" and "at_end cin = EndOfFile"
    and "LF \<notin> set line" and "NUL \<notin> set line"
    and "length line < m_constBufferSize s - 1" and "\<not> eof_ind cin"
  shows "ReadLine env s cin =
     Inr (Some (takeWhile (\<lambda>c. c \<noteq> LF \<and> c \<noteq> CR) line), [],
          s\<lparr>m_pCmdBuffer :=
              Some (overwrite_first_terminator line @ NUL # drop (length line + 1) buf)\<rparr>,
          cin\<lparr>pending := [], eof_ind := True\<rparr>)"
proof -
  let ?tl = "drop (length line + 1) buf"
  from assms(8) have n: "m_constBufferSize s \<noteq> 0" by simp
  from assms(6,8) have "fgets_chars (m_constBufferSize s - 1) line = (line, [], True)"
    by (rule fgets_chars_all)
  moreover from assms(2,8) have "length (line @ [NUL]) \<le> length buf" by simp
  ultimately have f: "fgets buf (m_constBufferSize s) cin =
      Inr (True, line @ NUL # ?tl, cin\<lparr>pending := [], eof_ind := True\<rparr>)"
    using n assms(3,4,5,9) by (simp add: fgets_def store_bytes_def)
  have st: "strip_new_line (line @ NUL # ?tl) = Inr (overwrite_first_terminator line @ NUL # ?tl)"
    using assms(7) by (rule strip_new_line_text)
  have cs: "c_str (overwrite_first_terminator line @ NUL # ?tl) =
      takeWhile (\<lambda>c. c \<noteq> LF \<and> c \<noteq> CR) line"
    using assms(7) by (rule c_str_text)
  show ?thesis
    unfolding ReadLine_def Let_def assms(1) option.case f sum.case prod.case st cs
    by simp
qed

lemma no_terminator_returned:
  "LF \<notin> set (takeWhile (\<lambda>c. c \<noteq> LF \<and> c \<noteq> CR) xs) \<and>
   CR \<notin> set (takeWhile (\<lambda>c. c \<noteq> LF \<and> c \<noteq> CR) xs)"
  by (auto dest: set_takeWhileD)

text \<open>
  C7. Whenever \<open>ReadLine\<close> returns no line, its error message is the text of the
  system error if the error indicator of the stream is set, and empty otherwise. With a
  buffer, a stream pointer and nothing left to read, \<open>ReadLine\<close> returns no line; the
  error indicator is then set exactly when it was set before or the read was tried
  (the end-of-file indicator was clear) and reported an error; and at the end of the
  stream with the error indicator clear the message is empty. A stream whose
  end-of-file indicator is set gives no line either, whatever it still holds, and the
  stream is left as it was.
\<close>

theorem C7_ReadLine_no_data:
  "(ReadLine env s cin = Inr (None, msg, sa, cina) \<longrightarrow>
      msg = (if ferror cina then strerror_errno env else [])) \<and>
   (m_pCmdBuffer s = Some buf \<and> m_pStdin s = Some h \<and> 1 < m_constBufferSize s \<and>
    pending cinb = [] \<longrightarrow>
      ReadLine env s cinb =
        Inr (None,
             if err_ind cinb \<or> (\<not> eof_ind cinb \<and> at_end cinb = ReadError)
             then strerror_errno env else [],
             s,
             if eof_ind cinb then cinb
             else if at_end cinb = ReadError then cinb\<lparr>err_ind := True\<rparr>
             else cinb\<lparr>eof_ind := True\<rparr>)) \<and>
   (m_pCmdBuffer s = Some buf \<and> m_pStdin s = Some h \<and> 1 < m_constBufferSize s \<and>
    pending cinc = [] \<and> at_end cinc = EndOfFile \<and> \<not> err_ind cinc \<longrightarrow>
      ReadLine env s cinc = Inr (None, [], s, cinc\<lparr>eof_ind := True\<rparr>)) \<and>
   (m_pCmdBuffer s = Some buf \<and> m_pStdin s = Some h \<and> 1 < m_constBufferSize s \<and>
    eof_ind cind \<longrightarrow>
      ReadLine env s cind =
        Inr (None, if err_ind cind then strerror_errno env else [], s, cind))"
proof -
  have a: "ReadLine env s cin = Inr (None, msg, sa, cina) \<longrightarrow>
      msg = (if ferror cina then strerror_errno env else [])"
    by (auto dest: ReadLine_vwErrMsg)
  have b: "m_pCmdBuffer s = Some buf \<and> m_pStdin s = Some h \<and> 1 < m_constBufferSize s \<and>
    pending cinb = [] \<longrightarrow>
      ReadLine env s cinb =
        Inr (None,
             if err_ind cinb \<or> (\<not> eof_ind cinb \<and> at_end cinb = ReadError)
             then strerror_errno env else [],
             s,
             if eof_ind cinb then cinb
             else if at_end cinb = ReadError then cinb\<lparr>err_ind := True\<rparr>
             else cinb\<lparr>eof_ind := True\<rparr>)"
    using ReadLine_no_data [of s buf h cinb env] by blast
  have c: "ReadLine env s cinc = Inr (None, [], s, cinc\<lparr>eof_ind := True\<rparr>)"
    if "m_pCmdBuffer s = Some buf \<and> m_pStdin s = Some h \<and> 1 < m_constBufferSize s \<and>
        pending cinc = [] \<and> at_end cinc = EndOfFile \<and> \<not> err_ind cinc"
  proof -
    have "eof_ind cinc \<Longrightarrow> cinc\<lparr>eof_ind := True\<rparr> = cinc" by (cases cinc) simp
    with that ReadLine_no_data [of s buf h cinc env] show ?thesis by auto
  qed
  have d: "m_pCmdBuffer s = Some buf \<and> m_pStdin s = Some h \<and> 1 < m_constBufferSize s \<and>
    eof_ind cind \<longrightarrow>
      ReadLine env s cind =
        Inr (None, if err_ind cind then strerror_errno env else [], s, cind)"
    using ReadLine_at_eof [of s buf h cind env] by blast
  from a b c d show ?thesis by blast
qed

theorem C7_ReadLine_no_data_witness:
  "m_pCmdBuffer ready = Some (map (new_MIchar env_ok) [0..<1024]) \<and>
   m_pStdin ready = Some stdin_handle \<and> 1 < m_constBufferSize ready \<and>
   pending (cin_of [] ReadError) = [] \<and>
   pending (cin_of [] EndOfFile) = [] \<and> at_end (cin_of [] EndOfFile) = EndOfFile \<and>
   \<not> err_ind (cin_of [] EndOfFile) \<and>
   eof_ind ((cin_of (''more'' @ [LF]) EndOfFile)\<lparr>eof_ind := True\<rparr>) \<and>
   ReadLine env_ok ready (cin_of [] ReadError) =
     Inr (None, ''Input/output error'', ready, (cin_of [] ReadError)\<lparr>err_ind := True\<rparr>) \<and>
   ferror ((cin_of [] ReadError)\<lparr>err_ind := True\<rparr>) \<and>
   ReadLine env_ok ready (cin_of [] EndOfFile) =
     Inr (None, [], ready, (cin_of [] EndOfFile)\<lparr>eof_ind := True\<rparr>) \<and>
   ReadLine env_ok ready ((cin_of (''more'' @ [LF]) EndOfFile)\<lparr>eof_ind := True\<rparr>) =
     Inr (None, [], ready, (cin_of (''more'' @ [LF]) EndOfFile)\<lparr>eof_ind := True\<rparr>)"
proof -
  let ?e = "cin_of [] ReadError" and ?f = "cin_of [] EndOfFile"
  let ?g = "(cin_of (''more'' @ [LF]) EndOfFile)\<lparr>eof_ind := True\<rparr>"
  have h: "m_pCmdBuffer ready = Some (map (new_MIchar env_ok) [0..<1024])"
    "m_pStdin ready = Some stdin_handle" "1 < m_constBufferSize ready"
    "pending ?e = []" "pending ?f = []" "at_end ?f = EndOfFile" "\<not> err_ind ?f"
    "at_end ?e = ReadError" "ferror (?e\<lparr>err_ind := True\<rparr>)" "eof_ind ?g"
    by (simp_all add: ready_fields cin_of_def ferror_def)
  have k: "\<not> err_ind ?e" "\<not> eof_ind ?e" "\<not> err_ind ?g"
    by (simp_all add: cin_of_def)
  from C7_ReadLine_no_data [where env = env_ok and s = ready and cin = ?e and msg = "''Input/output error''"
      and sa = ready and cina = "?e\<lparr>err_ind := True\<rparr>" and cinb = ?e and cinc = ?f
      and cind = ?g and buf = "map (new_MIchar env_ok) [0..<1024]" and h = stdin_handle] h k
  show ?thesis by (simp add: strerror_env_ok)
qed

lemma strip_new_line_c_str:
  "\<exists>b. strip_new_line (xs @ NUL # ys) = Inr b \<and>
       c_str b = takeWhile (\<lambda>c. c \<noteq> NUL \<and> c \<noteq> LF \<and> c \<noteq> CR) xs"
proof (induction xs)
  case Nil
  show ?case by (simp add: c_str_def)
next
  case (Cons x xs)
  then obtain b where "strip_new_line (xs @ NUL # ys) = Inr b"
    and "c_str b = takeWhile (\<lambda>c. c \<noteq> NUL \<and> c \<noteq> LF \<and> c \<noteq> CR) xs"
    by blast
  then show ?case by (auto simp: c_str_def)
qed

lemma takeWhile_up_to_LF:
  "takeWhile (\<lambda>c. c \<noteq> NUL \<and> c \<noteq> LF \<and> c \<noteq> CR) (line @ [LF]) =
   takeWhile (\<lambda>c. c \<noteq> NUL \<and> c \<noteq> LF \<and> c \<noteq> CR) line"
  by (induction line) auto

lemma ReadLine_any_line:
  assumes "m_pCmdBuffer s = Some buf" and "length buf = m_constBufferSize s"
    and "pending cin = line @ LF # rest" and "LF \<notin> set line"
    and "length line < m_constBufferSize s - 1" and "\<not> eof_ind cin"
  shows "\<exists>b. ReadLine env s cin =
     Inr (Some (takeWhile (\<lambda>c. c \<noteq> NUL \<and> c \<noteq> LF \<and> c \<noteq> CR) line), [],
          s\<lparr>m_pCmdBuffer := Some b\<rparr>, cin\<lparr>pending := rest\<rparr>)"
proof -
  let ?tl = "drop (length line + 2) buf"
  have f: "fgets buf (m_constBufferSize s) cin =
      Inr (True, (line @ [LF]) @ NUL # ?tl, cin\<lparr>pending := rest\<rparr>)"
    using fgets_line [OF assms(4,5,2,3,6)] by simp
  obtain b where st: "strip_new_line ((line @ [LF]) @ NUL # ?tl) = Inr b"
    and cs: "c_str b = takeWhile (\<lambda>c. c \<noteq> NUL \<and> c \<noteq> LF \<and> c \<noteq> CR) (line @ [LF])"
    using strip_new_line_c_str [of "line @ [LF]" ?tl] by blast
  have "ReadLine env s cin =
     Inr (Some (takeWhile (\<lambda>c. c \<noteq> NUL \<and> c \<noteq> LF \<and> c \<noteq> CR) line), [],
          s\<lparr>m_pCmdBuffer := Some b\<rparr>, cin\<lparr>pending := rest\<rparr>)"
    unfolding ReadLine_def Let_def assms(1) option.case f sum.case prod.case st cs
      takeWhile_up_to_LF
    by simp
  then show ?thesis by blast
qed

text \<open>
  The counterexample to C2 as stated. On the line \<open>ab\<close>, \<open>NUL\<close>, \<open>cd\<close> and its
  new-line, the loop that strips stops at the \<open>NUL\<close>: the new-line in the buffer is not
  overwritten, and the text returned is \<open>ab\<close>, not the bytes of the line. And on a
  stream whose end-of-file indicator is set, the line that waits there is not read: no
  line is returned.
\<close>

theorem C2_counterexample:
  "ReadLine env_ok ready (cin_of (''ab'' @ [NUL] @ ''cd'' @ [LF]) EndOfFile) =
     Inr (Some ''ab'', [],
          ready\<lparr>m_pCmdBuffer :=
            Some (''ab'' @ [NUL] @ ''cd'' @ [LF, NUL] @
                  drop 7 (map (new_MIchar env_ok) [0..<1024]))\<rparr>,
          cin_of [] EndOfFile) \<and>
   ReadLine env_ok ready ((cin_of (''more'' @ [LF]) EndOfFile)\<lparr>eof_ind := True\<rparr>) =
     Inr (None, [], ready, (cin_of (''more'' @ [LF]) EndOfFile)\<lparr>eof_ind := True\<rparr>)"
proof -
  let ?buf = "map (new_MIchar env_ok) [0..<1024]"
  let ?line = "''ab'' @ [NUL] @ ''cd''"
  let ?cin = "cin_of (''ab'' @ [NUL] @ ''cd'' @ [LF]) EndOfFile"
  let ?g = "(cin_of (''more'' @ [LF]) EndOfFile)\<lparr>eof_ind := True\<rparr>"
  have "LF \<notin> set ?line" and "length ?line < m_constBufferSize ready - 1"
    and "length ?buf = m_constBufferSize ready" and "pending ?cin = ?line @ LF # []"
    and "\<not> eof_ind ?cin"
    by (simp_all add: ready_fields cin_of_def)
  from fgets_line [OF this]
  have f: "fgets ?buf (m_constBufferSize ready) ?cin =
      Inr (True, ?line @ LF # NUL # drop (length ?line + 2) ?buf, cin_of [] EndOfFile)"
    by (simp add: cin_of_def)
  have "length ?line + 2 = 7" by simp
  then have n: "drop 7 ?buf = drop (length ?line + 2) ?buf" by (simp only:)
  have a: "ReadLine env_ok ready ?cin =
     Inr (Some ''ab'', [],
          ready\<lparr>m_pCmdBuffer := Some (''ab'' @ [NUL] @ ''cd'' @ [LF, NUL] @ drop 7 ?buf)\<rparr>,
          cin_of [] EndOfFile)"
    unfolding ReadLine_def Let_def ready_fields(1) option.case f sum.case prod.case n
    by (simp add: c_str_def)
  have "1 < m_constBufferSize ready" and "eof_ind ?g"
    by (simp_all add: ready_fields)
  from ReadLine_at_eof [OF ready_fields(1,2) this, of env_ok]
  have b: "ReadLine env_ok ready ?g = Inr (None, [], ready, ?g)"
    by (simp add: cin_of_def)
  from a b show ?thesis by blast
qed

text \<open>
  C2, amended. Let the instance hold a buffer of its fixed size, let \<open>line\<close> be
  shorter than that size less one and free of \<open>LF\<close>, and let the end-of-file indicator
  of the stream be clear. When \<open>line\<close> holds no \<open>NUL\<close> and the stream holds
  \<open>line\<close>, a new-line and then \<open>rest\<close>, \<open>ReadLine\<close> reads the line and its
  new-line, at most the size less one bytes, and leaves \<open>rest\<close>; the buffer holds the
  bytes read with the first \<open>LF\<close> or \<open>CR\<close> overwritten by the terminator, and the
  text returned is the bytes before that first \<open>LF\<close> or \<open>CR\<close>, with no error
  message. The same holds for a last line that the end of the stream ends. For any
  \<open>line\<close>, with \<open>NUL\<close> or without, the text returned is \<open>line\<close> up to its first
  \<open>NUL\<close>, \<open>LF\<close> or \<open>CR\<close>. The text returned contains neither \<open>LF\<close> nor
  \<open>CR\<close>, and no call reads more than the size less one bytes.
\<close>

theorem C2_ReadLine_returns_line:
  assumes "m_pCmdBuffer s = Some buf" and "length buf = m_constBufferSize s"
    and "LF \<notin> set line" and "length line < m_constBufferSize s - 1"
  shows
    "(pending cin = line @ LF # rest \<and> \<not> eof_ind cin \<and> NUL \<notin> set line \<longrightarrow>
        ReadLine env s cin =
          Inr (Some (takeWhile (\<lambda>c. c \<noteq> LF \<and> c \<noteq> CR) (line @ [LF])), [],
               s\<lparr>m_pCmdBuffer :=
                   Some (overwrite_first_terminator (line @ [LF]) @ NUL #
                         drop (length line + 2) buf)\<rparr>,
               cin\<lparr>pending := rest\<rparr>) \<and>
        length (line @ [LF]) \<le> m_constBufferSize s - 1) \<and>
     (pending cinb = line \<and> line \<noteq> [] \<and> at_end cinb = EndOfFile \<and> \<not> eof_ind cinb \<and>
      NUL \<notin> set line \<longrightarrow>
        ReadLine env s cinb =
          Inr (Some (takeWhile (\<lambda>c. c \<noteq> LF \<and> c \<noteq> CR) line), [],
               s\<lparr>m_pCmdBuffer :=
                   Some (overwrite_first_terminator line @ NUL # drop (length line + 1) buf)\<rparr>,
               cinb\<lparr>pending := [], eof_ind := True\<rparr>)) \<and>
     (pending cind = line @ LF # rest \<and> \<not> eof_ind cind \<longrightarrow>
        (\<exists>b. ReadLine env s cind =
           Inr (Some (takeWhile (\<lambda>c. c \<noteq> NUL \<and> c \<noteq> LF \<and> c \<noteq> CR) line), [],
                s\<lparr>m_pCmdBuffer := Some b\<rparr>, cind\<lparr>pending := rest\<rparr>))) \<and>
     LF \<notin> set (takeWhile (\<lambda>c. c \<noteq> LF \<and> c \<noteq> CR) (line @ [LF])) \<and>
     CR \<notin> set (takeWhile (\<lambda>c. c \<noteq> LF \<and> c \<noteq> CR) (line @ [LF])) \<and>
     takeWhile (\<lambda>c. c \<noteq> LF \<and> c \<noteq> CR) (line @ [LF]) = takeWhile (\<lambda>c. c \<noteq> CR) line \<and>
     (ReadLine env s cinc = Inr (res, msg, sa, cina) \<longrightarrow>
        (\<exists>r. pending cinc = r @ pending cina \<and> length r \<le> m_constBufferSize s - 1))"
proof -
  have a: "pending cin = line @ LF # rest \<and> \<not> eof_ind cin \<and> NUL \<notin> set line \<longrightarrow>
        ReadLine env s cin =
          Inr (Some (takeWhile (\<lambda>c. c \<noteq> LF \<and> c \<noteq> CR) (line @ [LF])), [],
               s\<lparr>m_pCmdBuffer :=
                   Some (overwrite_first_terminator (line @ [LF]) @ NUL #
                         drop (length line + 2) buf)\<rparr>,
               cin\<lparr>pending := rest\<rparr>)"
    using ReadLine_line [OF assms(1,2) _ assms(3) _ assms(4)] by blast
  have b: "length (line @ [LF]) \<le> m_constBufferSize s - 1"
    using assms(4) by simp
  have c: "pending cinb = line \<and> line \<noteq> [] \<and> at_end cinb = EndOfFile \<and> \<not> eof_ind cinb \<and>
      NUL \<notin> set line \<longrightarrow>
        ReadLine env s cinb =
          Inr (Some (takeWhile (\<lambda>c. c \<noteq> LF \<and> c \<noteq> CR) line), [],
               s\<lparr>m_pCmdBuffer :=
                   Some (overwrite_first_terminator line @ NUL # drop (length line + 1) buf)\<rparr>,
               cinb\<lparr>pending := [], eof_ind := True\<rparr>)"
    using ReadLine_last_line [OF assms(1,2) _ _ _ assms(3) _ assms(4)] by blast
  have d: "ReadLine env s cinc = Inr (res, msg, sa, cina) \<longrightarrow>
        (\<exists>r. pending cinc = r @ pending cina \<and> length r \<le> m_constBufferSize s - 1)"
    using ReadLine_consumes by blast
  have e: "pending cind = line @ LF # rest \<and> \<not> eof_ind cind \<longrightarrow>
        (\<exists>b. ReadLine env s cind =
           Inr (Some (takeWhile (\<lambda>c. c \<noteq> NUL \<and> c \<noteq> LF \<and> c \<noteq> CR) line), [],
                s\<lparr>m_pCmdBuffer := Some b\<rparr>, cind\<lparr>pending := rest\<rparr>))"
    using ReadLine_any_line [OF assms(1,2) _ assms(3,4)] by blast
  from a b c d e no_terminator_returned [of "line @ [LF]"] takeWhile_line [OF assms(3)]
  show ?thesis by blast
qed

theorem C2_ReadLine_returns_line_witness:
  "m_pCmdBuffer ready = Some (map (new_MIchar env_ok) [0..<1024]) \<and>
   length (map (new_MIchar env_ok) [0..<1024]) = m_constBufferSize ready \<and>
   LF \<notin> set (''continue'' @ [CR]) \<and> NUL \<notin> set (''continue'' @ [CR]) \<and>
   length (''continue'' @ [CR]) < m_constBufferSize ready - 1 \<and>
   \<not> eof_ind (cin_of (''continue'' @ [CR, LF] @ ''next'') EndOfFile) \<and>
   \<not> eof_ind (cin_of (''continue'' @ [CR]) EndOfFile) \<and>
   ReadLine env_ok ready (cin_of (''continue'' @ [CR, LF] @ ''next'') EndOfFile) =
     Inr (Some ''continue'', [],
          ready\<lparr>m_pCmdBuffer :=
            Some (''continue'' @ [NUL, LF, NUL] @ drop 11 (map (new_MIchar env_ok) [0..<1024]))\<rparr>,
          cin_of ''next'' EndOfFile) \<and>
   ReadLine env_ok ready (cin_of (''continue'' @ [CR]) EndOfFile) =
     Inr (Some ''continue'', [],
          ready\<lparr>m_pCmdBuffer :=
            Some (''continue'' @ [NUL, NUL] @ drop 10 (map (new_MIchar env_ok) [0..<1024]))\<rparr>,
          (cin_of [] EndOfFile)\<lparr>eof_ind := True\<rparr>) \<and>
   (\<exists>r. ''continue'' @ [CR, LF] @ ''next'' = r @ ''next'' \<and> length r \<le> 1023)"
proof -
  let ?buf = "map (new_MIchar env_ok) [0..<1024]"
  let ?line = "''continue'' @ [CR]"
  let ?cin = "cin_of (''continue'' @ [CR, LF] @ ''next'') EndOfFile"
  let ?cinb = "cin_of (''continue'' @ [CR]) EndOfFile"
  let ?sa = "ready\<lparr>m_pCmdBuffer :=
            Some (''continue'' @ [NUL, LF, NUL] @ drop 11 ?buf)\<rparr>"
  have h: "m_pCmdBuffer ready = Some ?buf" "length ?buf = m_constBufferSize ready"
    "LF \<notin> set ?line" "length ?line < m_constBufferSize ready - 1"
    by (simp_all add: ready_fields)
  have p: "pending ?cin = ?line @ LF # ''next''" "pending ?cinb = ?line" "?line \<noteq> []"
    "at_end ?cinb = EndOfFile" "NUL \<notin> set ?line" "\<not> eof_ind ?cin" "\<not> eof_ind ?cinb"
    by (simp_all add: cin_of_def)
  note g = C2_ReadLine_returns_line [OF h]
  note t = g [where cin = ?cin and rest = "''next''"
      and cinb = ?cinb and cinc = ?cin and cind = ?cin and env = env_ok
      and res = "Some ''continue''"
      and msg = "[]" and sa = ?sa and cina = "cin_of ''next'' EndOfFile"]
  have "length ?line + 2 = 11" and "length ?line + 1 = 10"
    by simp_all
  then have n: "drop 11 ?buf = drop (length ?line + 2) ?buf"
    "drop 10 ?buf = drop (length ?line + 1) ?buf"
    by (simp_all only:)
  have a: "ReadLine env_ok ready ?cin = Inr (Some ''continue'', [], ?sa, cin_of ''next'' EndOfFile)"
    using t p(1,5,6) unfolding n by (simp add: cin_of_def)
  have b: "ReadLine env_ok ready ?cinb =
     Inr (Some ''continue'', [],
          ready\<lparr>m_pCmdBuffer := Some (''continue'' @ [NUL, NUL] @ drop 10 ?buf)\<rparr>,
          (cin_of [] EndOfFile)\<lparr>eof_ind := True\<rparr>)"
    using t p(2,3,4,5,7) unfolding n by (simp add: cin_of_def)
  have c: "\<exists>r. ''continue'' @ [CR, LF] @ ''next'' = r @ ''next'' \<and> length r \<le> 1023"
    using t a by (simp add: cin_of_def ready_fields)
  from h p a b c show ?thesis by blast
qed

end
